theory Spec2Isabelle
  imports Complex_Main "HOL-Library.Multiset" "HOL-Library.Sublist"
begin

section \<open>JavaScript numbers\<close>

text \<open>
  A JavaScript \<^verbatim>\<open>number\<close> is a finite value, \<^verbatim>\<open>Infinity\<close>, \<^verbatim>\<open>-Infinity\<close> or \<^verbatim>\<open>NaN\<close>.
  Finite values are taken as exact reals: rounding, overflow and the sign of zero are not
  modelled (every zero is \<^verbatim>\<open>+0\<close>). The special values follow IEEE 754.
\<close>

datatype jsnum = Fin real | PInf | NInf | NaN

fun jsadd :: "jsnum \<Rightarrow> jsnum \<Rightarrow> jsnum" where
  "jsadd (Fin a) (Fin b) = Fin (a + b)"
| "jsadd NaN _ = NaN"
| "jsadd _ NaN = NaN"
| "jsadd PInf NInf = NaN"
| "jsadd NInf PInf = NaN"
| "jsadd PInf _ = PInf"
| "jsadd _ PInf = PInf"
| "jsadd NInf _ = NInf"
| "jsadd _ NInf = NInf"

fun jsneg :: "jsnum \<Rightarrow> jsnum" where
  "jsneg (Fin a) = Fin (- a)"
| "jsneg PInf = NInf"
| "jsneg NInf = PInf"
| "jsneg NaN = NaN"

definition jssub :: "jsnum \<Rightarrow> jsnum \<Rightarrow> jsnum" where
  "jssub a b = jsadd a (jsneg b)"

text \<open>The sign of a number that is not \<^verbatim>\<open>NaN\<close>: \<open>1\<close>, \<open>0\<close> or \<open>-1\<close>.\<close>

fun jssign :: "jsnum \<Rightarrow> int" where
  "jssign (Fin a) = (if 0 < a then 1 else if a < 0 then - 1 else 0)"
| "jssign PInf = 1"
| "jssign NInf = - 1"
| "jssign NaN = 0"

definition inf_of_sign :: "int \<Rightarrow> jsnum" where
  "inf_of_sign s = (if 0 < s then PInf else if s < 0 then NInf else NaN)"

fun jsmul :: "jsnum \<Rightarrow> jsnum \<Rightarrow> jsnum" where
  "jsmul (Fin a) (Fin b) = Fin (a * b)"
| "jsmul NaN _ = NaN"
| "jsmul _ NaN = NaN"
| "jsmul a b = inf_of_sign (jssign a * jssign b)"

fun jsdiv :: "jsnum \<Rightarrow> jsnum \<Rightarrow> jsnum" where
  "jsdiv (Fin a) (Fin b) = (if b = 0 then inf_of_sign (jssign (Fin a)) else Fin (a / b))"
| "jsdiv NaN _ = NaN"
| "jsdiv _ NaN = NaN"
| "jsdiv (Fin a) _ = Fin 0"
| "jsdiv a (Fin b) = inf_of_sign (jssign a * (if b < 0 then - 1 else 1))"
| "jsdiv _ _ = NaN"

text \<open>\<^verbatim>\<open>a > b\<close> and \<^verbatim>\<open>a >= b\<close>: false as soon as one side is \<^verbatim>\<open>NaN\<close>.\<close>

fun js_gt :: "jsnum \<Rightarrow> jsnum \<Rightarrow> bool" where
  "js_gt (Fin a) (Fin b) = (b < a)"
| "js_gt NaN _ = False"
| "js_gt _ NaN = False"
| "js_gt PInf b = (b \<noteq> PInf)"
| "js_gt NInf _ = False"
| "js_gt (Fin a) b = (b = NInf)"

definition js_ge :: "jsnum \<Rightarrow> jsnum \<Rightarrow> bool" where
  "js_ge a b = (a \<noteq> NaN \<and> b \<noteq> NaN \<and> (js_gt a b \<or> a = b))"

text \<open>\<^verbatim>\<open>Math.abs\<close>.\<close>

fun jsabs :: "jsnum \<Rightarrow> jsnum" where
  "jsabs (Fin a) = Fin \<bar>a\<bar>"
| "jsabs PInf = PInf"
| "jsabs NInf = PInf"
| "jsabs NaN = NaN"

text \<open>\<^verbatim>\<open>x || 0\<close> on a number: \<^verbatim>\<open>0\<close> and \<^verbatim>\<open>NaN\<close> are falsy.\<close>

definition or_zero :: "jsnum \<Rightarrow> jsnum" where
  "or_zero x = (if x = Fin 0 \<or> x = NaN then Fin 0 else x)"

text \<open>\<^verbatim>\<open>x || 0\<close> on a value that may be \<^verbatim>\<open>undefined\<close>.\<close>

definition opt_or_zero :: "jsnum option \<Rightarrow> jsnum" where
  "opt_or_zero x = (case x of None \<Rightarrow> Fin 0 | Some v \<Rightarrow> or_zero v)"

text \<open>The number a possibly \<^verbatim>\<open>undefined\<close> value converts to: \<^verbatim>\<open>undefined\<close> becomes \<^verbatim>\<open>NaN\<close>.\<close>

definition to_number :: "jsnum option \<Rightarrow> jsnum" where
  "to_number x = (case x of None \<Rightarrow> NaN | Some v \<Rightarrow> v)"

instantiation jsnum :: comm_monoid_add
begin

definition zero_jsnum :: jsnum where
  "zero_jsnum = Fin 0"

definition plus_jsnum :: "jsnum \<Rightarrow> jsnum \<Rightarrow> jsnum" where
  "plus_jsnum = jsadd"

instance
proof
  fix a b c :: jsnum
  show "a + b + c = a + (b + c)"
    unfolding plus_jsnum_def by (cases a; cases b; cases c) simp_all
  show "a + b = b + a"
    unfolding plus_jsnum_def by (cases a; cases b) simp_all
  show "0 + a = a"
    unfolding plus_jsnum_def zero_jsnum_def by (cases a) simp_all
qed

end


section \<open>Strings\<close>

text \<open>
  Service names are byte strings; \<^verbatim>\<open>toLowerCase\<close> and \<^verbatim>\<open>toUpperCase\<close> act on the ASCII
  letters, which is what the names of billed services consist of.
\<close>

definition lower_char :: "char \<Rightarrow> char" where
  "lower_char c = (let n = of_char c :: nat in if 65 \<le> n \<and> n \<le> 90 then char_of (n + 32) else c)"

definition upper_char :: "char \<Rightarrow> char" where
  "upper_char c = (let n = of_char c :: nat in if 97 \<le> n \<and> n \<le> 122 then char_of (n - 32) else c)"

definition toLowerCase :: "string \<Rightarrow> string" where
  "toLowerCase s = map lower_char s"

definition toUpperCase :: "string \<Rightarrow> string" where
  "toUpperCase s = map upper_char s"

fun startsWith :: "string \<Rightarrow> string \<Rightarrow> bool" where
  "startsWith _ [] = True"
| "startsWith [] (_ # _) = False"
| "startsWith (c # cs) (d # ds) = (c = d \<and> startsWith cs ds)"

text \<open>\<^verbatim>\<open>s.includes(sub)\<close>: \<open>sub\<close> occurs in \<open>s\<close> as a contiguous substring.\<close>

fun includes_str :: "string \<Rightarrow> string \<Rightarrow> bool" where
  "includes_str [] sub = (sub = [])"
| "includes_str (c # cs) sub = (startsWith (c # cs) sub \<or> includes_str cs sub)"

text \<open>\<^verbatim>\<open>xs.some(p)\<close>.\<close>

fun some :: "('a \<Rightarrow> bool) \<Rightarrow> 'a list \<Rightarrow> bool" where
  "some p [] = False"
| "some p (x # xs) = (p x \<or> some p xs)"

section \<open>Containers\<close>

text \<open>
  A JavaScript \<^verbatim>\<open>Map\<close> keeps its keys in the order of their first insertion; \<^verbatim>\<open>set\<close> on a
  key already there replaces the value in place. It is an association list in that order.
\<close>

type_synonym ('k, 'v) jsmap = "('k \<times> 'v) list"

fun map_set :: "'k \<Rightarrow> 'v \<Rightarrow> ('k, 'v) jsmap \<Rightarrow> ('k, 'v) jsmap" where
  "map_set k v [] = [(k, v)]"
| "map_set k v ((k', v') # m) = (if k' = k then (k, v) # m else (k', v') # map_set k v m)"

fun map_get :: "('k, 'v) jsmap \<Rightarrow> 'k \<Rightarrow> 'v option" where
  "map_get [] k = None"
| "map_get ((k', v') # m) k = (if k' = k then Some v' else map_get m k)"

definition map_keys :: "('k, 'v) jsmap \<Rightarrow> 'k list" where
  "map_keys m = map fst m"

text \<open>\<^verbatim>\<open>new Set(xs)\<close>: the distinct elements of \<open>xs\<close> in the order of their first occurrence.\<close>

definition set_add :: "'a \<Rightarrow> 'a list \<Rightarrow> 'a list" where
  "set_add x s = (if x \<in> set s then s else s @ [x])"

definition new_Set :: "'a list \<Rightarrow> 'a list" where
  "new_Set xs = foldl (\<lambda>s x. set_add x s) [] xs"

text \<open>
  \<^verbatim>\<open>xs.sort(cmp)\<close>. The sort of ECMAScript 2019 is stable, \<open>a\<close> goes after \<open>b\<close> when
  \<^verbatim>\<open>cmp(a, b) > 0\<close>, and a comparator result of \<^verbatim>\<open>NaN\<close> counts as \<^verbatim>\<open>0\<close>. The engine's
  algorithm is not part of the repository: a stable insertion sort stands for it.
\<close>

fun sort_insert :: "('a \<Rightarrow> 'a \<Rightarrow> jsnum) \<Rightarrow> 'a \<Rightarrow> 'a list \<Rightarrow> 'a list" where
  "sort_insert cmp x [] = [x]"
| "sort_insert cmp x (y # ys) =
     (if js_gt (cmp y x) (Fin 0) then x # y # ys else y # sort_insert cmp x ys)"

definition array_sort :: "('a \<Rightarrow> 'a \<Rightarrow> jsnum) \<Rightarrow> 'a list \<Rightarrow> 'a list" where
  "array_sort cmp xs = foldl (\<lambda>acc x. sort_insert cmp x acc) [] xs"

section \<open>Data model\<close>

text \<open>\<^verbatim>\<open>interface CostByService\<close>. The two optional fields are \<open>None\<close> when \<^verbatim>\<open>undefined\<close>.\<close>

record CostByService =
  serviceName :: string
  amount :: jsnum
  unit :: string
  previousAmount :: "jsnum option"
  changePercentage :: "jsnum option"

text \<open>The six keys of \<^verbatim>\<open>categories\<close>, in the order the object literal inserts them.\<close>

datatype category = Ec2 | Security | Management | Storage | Other | Tax

definition category_order :: "category list" where
  "category_order = [Ec2, Security, Management, Storage, Other, Tax]"

fun category_name :: "category \<Rightarrow> string" where
  "category_name Ec2 = ''ec2''"
| "category_name Security = ''security''"
| "category_name Management = ''management''"
| "category_name Storage = ''storage''"
| "category_name Other = ''other''"
| "category_name Tax = ''tax''"

record category_data =
  current :: jsnum
  previous :: jsnum
  changePercentage_cat :: jsnum

text \<open>
  \<^verbatim>\<open>interface CostResult\<close>. A date is the number of its day; the source stores the
  \<^verbatim>\<open>yyyy-MM-dd\<close> string of that day.
\<close>

record CostResult =
  costs :: "CostByService list"
  total_cost :: jsnum
  previousTotal :: jsnum
  totalChangePercentage :: jsnum
  startDate :: int
  endDate :: int
  categories :: "category \<Rightarrow> category_data"

text \<open>What a run can throw.\<close>

datatype error = TypeError | Error string | ProviderError string | SinkError string

subsection \<open>The provider's response\<close>

text \<open>
  The parts of \<^verbatim>\<open>GetCostAndUsageCommandOutput\<close> the code reads. \<open>Amount\<close> holds the number
  that \<^verbatim>\<open>Number\<close> reads from the decimal string, \<open>None\<close> when the string is absent or empty.
\<close>

record metric_value =
  Amount :: "jsnum option"

record group =
  Keys :: "string list option"
  Metrics :: "(string \<times> metric_value) list option"

record result_by_time =
  Groups :: "group list option"

record response =
  ResultsByTime :: "result_by_time list option"

section \<open>The cost aggregator\<close>

text \<open>\<^verbatim>\<open>Number(group.Metrics?.UnblendedCost.Amount || 0)\<close>\<close>

definition group_amount :: "group \<Rightarrow> error + jsnum" where
  "group_amount g =
     (case Metrics g of
        None \<Rightarrow> Inr (Fin 0)
      | Some ms \<Rightarrow>
          (case map_of ms ''UnblendedCost'' of
             None \<Rightarrow> Inl TypeError
           | Some mv \<Rightarrow> Inr (case Amount mv of None \<Rightarrow> Fin 0 | Some v \<Rightarrow> v)))"

text \<open>\<^verbatim>\<open>group.Keys?.[0] || 'Unknown'\<close>\<close>

definition group_key :: "group \<Rightarrow> string" where
  "group_key g =
     (case Keys g of
        None \<Rightarrow> ''Unknown''
      | Some [] \<Rightarrow> ''Unknown''
      | Some (k # _) \<Rightarrow> if k = [] then ''Unknown'' else k)"

text \<open>The loop over the groups of one window: the running total and the map.\<close>

fun process_groups ::
  "group list \<Rightarrow> jsnum \<times> (string, jsnum) jsmap \<Rightarrow> error + (jsnum \<times> (string, jsnum) jsmap)" where
  "process_groups [] st = Inr st"
| "process_groups (g # gs) (tot, m) =
     (case group_amount g of
        Inl e \<Rightarrow> Inl e
      | Inr a \<Rightarrow> process_groups gs (tot + a, map_set (group_key g) a m))"

text \<open>
  \<^verbatim>\<open>if (response.ResultsByTime && response.ResultsByTime[0].Groups)\<close>: the groups the loop
  runs over. An empty array is truthy, and reading \<^verbatim>\<open>Groups\<close> of its first element throws.
\<close>

definition response_groups :: "response \<Rightarrow> error + group list" where
  "response_groups r =
     (case ResultsByTime r of
        None \<Rightarrow> Inr []
      | Some [] \<Rightarrow> Inl TypeError
      | Some (t # _) \<Rightarrow> (case Groups t of None \<Rightarrow> Inr [] | Some gs \<Rightarrow> Inr gs))"

definition window_costs :: "response \<Rightarrow> error + (jsnum \<times> (string, jsnum) jsmap)" where
  "window_costs r =
     (case response_groups r of Inl e \<Rightarrow> Inl e | Inr gs \<Rightarrow> process_groups gs (Fin 0, []))"

text \<open>The rule for a change in percent, written three times in the source.\<close>

definition change_percentage :: "jsnum \<Rightarrow> jsnum \<Rightarrow> jsnum" where
  "change_percentage cur prev =
     (if prev = Fin 0 then (if cur = Fin 0 then Fin 0 else Fin 100)
      else jsmul (jsdiv (jssub cur prev) prev) (Fin 100))"

definition service_cost ::
  "(string, jsnum) jsmap \<Rightarrow> (string, jsnum) jsmap \<Rightarrow> string \<Rightarrow> CostByService" where
  "service_cost currentCosts previousCosts service =
     (let currentAmount = opt_or_zero (map_get currentCosts service);
          previousAmount = opt_or_zero (map_get previousCosts service)
      in \<lparr>serviceName = service, amount = currentAmount, unit = ''USD'',
          previousAmount = Some previousAmount,
          changePercentage = Some (change_percentage currentAmount previousAmount)\<rparr>)"

definition allServices :: "(string, jsnum) jsmap \<Rightarrow> (string, jsnum) jsmap \<Rightarrow> string list" where
  "allServices currentCosts previousCosts = new_Set (map_keys currentCosts @ map_keys previousCosts)"

text \<open>The services in iteration order, before the sort.\<close>

definition unsorted_costs ::
  "(string, jsnum) jsmap \<Rightarrow> (string, jsnum) jsmap \<Rightarrow> CostByService list" where
  "unsorted_costs currentCosts previousCosts =
     map (service_cost currentCosts previousCosts) (allServices currentCosts previousCosts)"

definition by_amount_desc :: "CostByService \<Rightarrow> CostByService \<Rightarrow> jsnum" where
  "by_amount_desc a b = jssub (amount b) (amount a)"

definition classify :: "string \<Rightarrow> category" where
  "classify name =
     (let service = toLowerCase name in
      if includes_str service ''ec2'' then Ec2
      else if some (\<lambda>s. includes_str service s) [''guardduty'', ''vpc'', ''kms'', ''cloudfront''] then Security
      else if some (\<lambda>s. includes_str service s) [''cloudwatch'', ''secrets manager''] then Management
      else if some (\<lambda>s. includes_str service s) [''rds'', ''s3'', ''dynamodb'', ''glacier''] then Storage
      else if includes_str service ''tax'' then Tax
      else Other)"

definition initial_categories :: "category \<Rightarrow> category_data" where
  "initial_categories = (\<lambda>_. \<lparr>current = Fin 0, previous = Fin 0, changePercentage_cat = Fin 0\<rparr>)"

fun accumulate ::
  "CostByService list \<Rightarrow> (category \<Rightarrow> category_data) \<Rightarrow> (category \<Rightarrow> category_data)" where
  "accumulate [] cats = cats"
| "accumulate (cost # cs) cats =
     (let k = classify (serviceName cost); d = cats k
      in accumulate cs
           (cats(k := d\<lparr>current := current d + amount cost,
                        previous := previous d + opt_or_zero (previousAmount cost)\<rparr>)))"

definition set_category_changes :: "(category \<Rightarrow> category_data) \<Rightarrow> (category \<Rightarrow> category_data)" where
  "set_category_changes cats =
     (\<lambda>k. (cats k)\<lparr>changePercentage_cat := change_percentage (current (cats k)) (previous (cats k))\<rparr>)"

text \<open>
  The body of \<^verbatim>\<open>getCostsByService\<close> after the two fetches: from the two responses to the
  result, or to the error thrown on the way.
\<close>

definition aggregate :: "response \<Rightarrow> response \<Rightarrow> int \<Rightarrow> int \<Rightarrow> error + CostResult" where
  "aggregate currentResponse previousResponse yesterday now =
     (case window_costs currentResponse of
        Inl e \<Rightarrow> Inl e
      | Inr (tot, currentCosts) \<Rightarrow>
          (case window_costs previousResponse of
             Inl e \<Rightarrow> Inl e
           | Inr (prevTotal, previousCosts) \<Rightarrow>
               (let sorted = array_sort by_amount_desc (unsorted_costs currentCosts previousCosts)
                in Inr \<lparr>costs = sorted,
                        total_cost = tot,
                        previousTotal = prevTotal,
                        totalChangePercentage = change_percentage tot prevTotal,
                        startDate = yesterday,
                        endDate = now,
                        categories = set_category_changes (accumulate sorted initial_categories)\<rparr>)))"

text \<open>The string \<^verbatim>\<open>x.toFixed(n)\<close>, and the JSON documents built from such strings.\<close>

datatype fixed = ToFixed nat jsnum

datatype json = JStr string | JDate int | JFixed fixed | JArr "json list" | JObj "(string \<times> json) list"

record category_entry =
  ce_heading :: string
  ce_current :: fixed
  ce_percentage :: fixed
  ce_change :: "string \<times> fixed"
  ce_previous :: fixed

record detail_entry =
  de_service :: string
  de_current :: fixed
  de_unit :: string
  de_previous :: "fixed option"
  de_change :: "string \<times> fixed"

record notable_entry =
  ne_service :: string
  ne_change :: "string \<times> fixed"

record issue_body =
  ib_date :: int
  ib_startDate :: int
  ib_endDate :: int
  ib_total :: fixed
  ib_totalChange :: "string \<times> fixed"
  ib_categories :: "category_entry list"
  ib_details :: "detail_entry list"
  ib_notable :: "notable_entry list"

record issue_request =
  auth :: string
  owner :: string
  repo :: string
  title :: int
  body :: issue_body
  labels :: "string list"

text \<open>
  What the process does to the outside, in the order it does it: a request to the cost-data
  provider for a period, a document on standard output, a request to the issue sink, an error
  on standard error, the exit with a status.
\<close>

datatype event =
    Fetch int int
  | Stdout json
  | CreateIssue issue_request
  | Stderr error
  | Exit nat

type_synonym provider = "int \<Rightarrow> int \<Rightarrow> error + response"

type_synonym sink = "issue_request \<Rightarrow> error option"

text \<open>
  \<^verbatim>\<open>getCostsByService\<close>: the requests it makes, and its result or the error it throws. The
  clock is a parameter; a failed request throws before anything else is done.
\<close>

definition getCostsByService :: "provider \<Rightarrow> int \<Rightarrow> event list \<times> (error + CostResult)" where
  "getCostsByService costExplorer now =
     (let yesterday = now - 1; twoDaysAgo = now - 2 in
      case costExplorer yesterday now of
        Inl e \<Rightarrow> ([Fetch yesterday now], Inl e)
      | Inr currentResponse \<Rightarrow>
          (case costExplorer twoDaysAgo yesterday of
             Inl e \<Rightarrow> ([Fetch yesterday now, Fetch twoDaysAgo yesterday], Inl e)
           | Inr previousResponse \<Rightarrow>
               ([Fetch yesterday now, Fetch twoDaysAgo yesterday],
                aggregate currentResponse previousResponse yesterday now)))"

section \<open>The report formatter\<close>

text \<open>
  A number formatted with \<^verbatim>\<open>toFixed\<close> is kept as the number and the count of decimals. The
  static text of the issue body is left out: the body is the record of its variable parts.
\<close>

definition formatChangePercentage :: "jsnum \<Rightarrow> string \<times> fixed" where
  "formatChangePercentage percentage =
     (if js_ge percentage (Fin 0) then ''+'' else [], ToFixed 1 percentage)"

text \<open>\<^verbatim>\<open>data.current / total * 100\<close>, the share of a category in the grand total.\<close>

definition share_of_total :: "category_data \<Rightarrow> jsnum \<Rightarrow> jsnum" where
  "share_of_total data tot = jsmul (jsdiv (current data) tot) (Fin 100)"

fun traverse :: "('a \<Rightarrow> error + 'b) \<Rightarrow> 'a list \<Rightarrow> error + 'b list" where
  "traverse f [] = Inr []"
| "traverse f (x # xs) =
     (case f x of
        Inl e \<Rightarrow> Inl e
      | Inr y \<Rightarrow> (case traverse f xs of Inl e \<Rightarrow> Inl e | Inr ys \<Rightarrow> Inr (y # ys)))"

definition by_current_desc :: "category \<times> category_data \<Rightarrow> category \<times> category_data \<Rightarrow> jsnum" where
  "by_current_desc a b = jssub (current (snd b)) (current (snd a))"

definition category_section :: "CostResult \<Rightarrow> category_entry list" where
  "category_section costResult =
     map (\<lambda>(cat, data).
            \<lparr>ce_heading = toUpperCase (category_name cat),
             ce_current = ToFixed 2 (current data),
             ce_percentage = ToFixed 1 (share_of_total data (total_cost costResult)),
             ce_change = formatChangePercentage (changePercentage_cat data),
             ce_previous = ToFixed 2 (previous data)\<rparr>)
         (array_sort by_current_desc (map (\<lambda>k. (k, categories costResult k)) category_order))"

text \<open>
  \<^verbatim>\<open>formatChangePercentage(cost.changePercentage!)\<close>: calling \<^verbatim>\<open>toFixed\<close> on \<^verbatim>\<open>undefined\<close>
  throws.
\<close>

definition format_change_of :: "CostByService \<Rightarrow> error + (string \<times> fixed)" where
  "format_change_of cost =
     (case changePercentage cost of
        None \<Rightarrow> Inl TypeError
      | Some p \<Rightarrow> Inr (formatChangePercentage p))"

definition detail_filter :: "CostByService \<Rightarrow> bool" where
  "detail_filter cost =
     (js_gt (amount cost) (Fin 0) \<or> js_gt (to_number (previousAmount cost)) (Fin 0))"

definition detail_line :: "CostByService \<Rightarrow> error + detail_entry" where
  "detail_line cost =
     (case format_change_of cost of
        Inl e \<Rightarrow> Inl e
      | Inr ch \<Rightarrow>
          Inr \<lparr>de_service = serviceName cost,
               de_current = ToFixed 4 (amount cost),
               de_unit = unit cost,
               de_previous = map_option (ToFixed 4) (previousAmount cost),
               de_change = ch\<rparr>)"

definition notable_filter :: "CostByService \<Rightarrow> bool" where
  "notable_filter cost =
     (js_gt (jsabs (to_number (changePercentage cost))) (Fin 10) \<and> js_gt (amount cost) (Fin 0.01))"

definition notable_line :: "CostByService \<Rightarrow> error + notable_entry" where
  "notable_line cost =
     (case format_change_of cost of
        Inl e \<Rightarrow> Inl e
      | Inr ch \<Rightarrow> Inr \<lparr>ne_service = serviceName cost, ne_change = ch\<rparr>)"

definition issueBody :: "int \<Rightarrow> CostResult \<Rightarrow> error + issue_body" where
  "issueBody today costResult =
     (case traverse detail_line (filter detail_filter (costs costResult)) of
        Inl e \<Rightarrow> Inl e
      | Inr details \<Rightarrow>
          (case traverse notable_line (filter notable_filter (costs costResult)) of
             Inl e \<Rightarrow> Inl e
           | Inr notable \<Rightarrow>
               Inr \<lparr>ib_date = today,
                    ib_startDate = startDate costResult,
                    ib_endDate = endDate costResult,
                    ib_total = ToFixed 2 (total_cost costResult),
                    ib_totalChange = formatChangePercentage (totalChangePercentage costResult),
                    ib_categories = category_section costResult,
                    ib_details = details,
                    ib_notable = notable\<rparr>))"

text \<open>The document \<^verbatim>\<open>main\<close> prints. \<^verbatim>\<open>JSON.stringify\<close> drops a key whose value is \<^verbatim>\<open>undefined\<close>.\<close>

definition optional_key :: "string \<Rightarrow> nat \<Rightarrow> jsnum option \<Rightarrow> (string \<times> json) list" where
  "optional_key k n x = (case x of None \<Rightarrow> [] | Some v \<Rightarrow> [(k, JFixed (ToFixed n v))])"

definition summary_categories :: "CostResult \<Rightarrow> json list" where
  "summary_categories result =
     map (\<lambda>name. let data = categories result name in
            JObj [(''name'', JStr (category_name name)),
                  (''current'', JFixed (ToFixed 2 (current data))),
                  (''previous'', JFixed (ToFixed 2 (previous data))),
                  (''changePercentage'', JFixed (ToFixed 1 (changePercentage_cat data))),
                  (''percentage'', JFixed (ToFixed 1 (share_of_total data (total_cost result))))])
         category_order"

definition summary_details :: "CostResult \<Rightarrow> json list" where
  "summary_details result =
     map (\<lambda>cost.
            JObj ([(''service'', JStr (serviceName cost)),
                   (''current'', JFixed (ToFixed 4 (amount cost)))]
                  @ optional_key ''previous'' 4 (previousAmount cost)
                  @ optional_key ''changePercentage'' 1 (changePercentage cost)
                  @ [(''unit'', JStr (unit cost))]))
         (costs result)"

definition summary_document :: "CostResult \<Rightarrow> json" where
  "summary_document result =
     JObj [(''summary'',
            JObj [(''period'', JObj [(''start'', JDate (startDate result)),
                                     (''end'', JDate (endDate result))]),
                  (''totalCost'', JFixed (ToFixed 2 (total_cost result))),
                  (''previousTotalCost'', JFixed (ToFixed 2 (previousTotal result))),
                  (''changePercentage'', JFixed (ToFixed 1 (totalChangePercentage result))),
                  (''currency'', JStr ''USD'')]),
           (''categories'', JArr (summary_categories result)),
           (''details'', JArr (summary_details result))]"

section \<open>The publisher and the run\<close>

record env =
  GITHUB_TOKEN :: "string option"
  GITHUB_OWNER :: "string option"
  GITHUB_REPO :: "string option"

text \<open>\<^verbatim>\<open>!x\<close> on an environment variable: unset or empty.\<close>

definition unset :: "string option \<Rightarrow> bool" where
  "unset x = (x = None \<or> x = Some [])"

definition createGitHubIssue ::
  "env \<Rightarrow> sink \<Rightarrow> int \<Rightarrow> CostResult \<Rightarrow> event list \<times> (error + unit)" where
  "createGitHubIssue e octokit today costResult =
     (if unset (GITHUB_TOKEN e) then
        ([], Inl (Error ''GITHUB_TOKEN environment variable is not set''))
      else if unset (GITHUB_OWNER e) then
        ([], Inl (Error ''GITHUB_OWNER environment variable is not set''))
      else if unset (GITHUB_REPO e) then
        ([], Inl (Error ''GITHUB_REPO environment variable is not set''))
      else
        (case issueBody today costResult of
           Inl err \<Rightarrow> ([], Inl err)
         | Inr b \<Rightarrow>
             (let request = \<lparr>auth = the (GITHUB_TOKEN e), owner = the (GITHUB_OWNER e),
                             repo = the (GITHUB_REPO e), title = today, body = b,
                             labels = [''cost'', ''monitoring'', ''daily-report'']\<rparr>
              in ([CreateIssue request],
                  case octokit request of Some err \<Rightarrow> Inl err | None \<Rightarrow> Inr ()))))"

text \<open>
  \<^verbatim>\<open>main\<close>: the trace of the run. Whatever is thrown inside the \<^verbatim>\<open>try\<close> is written to
  standard error and the process exits with status 1.
\<close>

definition main :: "env \<Rightarrow> provider \<Rightarrow> sink \<Rightarrow> int \<Rightarrow> int \<Rightarrow> event list" where
  "main e costExplorer octokit now today =
     (case getCostsByService costExplorer now of
        (fetches, Inl err) \<Rightarrow> fetches @ [Stderr err, Exit 1]
      | (fetches, Inr result) \<Rightarrow>
          (case createGitHubIssue e octokit today result of
             (sent, Inl err) \<Rightarrow> fetches @ [Stdout (summary_document result)] @ sent @ [Stderr err, Exit 1]
           | (sent, Inr _) \<Rightarrow> fetches @ [Stdout (summary_document result)] @ sent))"

section \<open>Observations on a run\<close>

fun is_fetch :: "event \<Rightarrow> bool" where
  "is_fetch (Fetch _ _) = True"
| "is_fetch _ = False"

fun is_create_issue :: "event \<Rightarrow> bool" where
  "is_create_issue (CreateIssue _) = True"
| "is_create_issue _ = False"

definition fetch_count :: "event list \<Rightarrow> nat" where
  "fetch_count tr = length (filter is_fetch tr)"

definition issue_count :: "event list \<Rightarrow> nat" where
  "issue_count tr = length (filter is_create_issue tr)"

text \<open>A list is in non-increasing order of a numeric key.\<close>

definition desc_by :: "('a \<Rightarrow> jsnum) \<Rightarrow> 'a list \<Rightarrow> bool" where
  "desc_by key xs = sorted_wrt (\<lambda>a b. js_ge (key a) (key b)) xs"

text \<open>A number that is not negative: a finite one from \<open>0\<close> on, or \<^verbatim>\<open>Infinity\<close>.\<close>

fun non_negative :: "jsnum \<Rightarrow> bool" where
  "non_negative (Fin a) = (0 \<le> a)"
| "non_negative PInf = True"
| "non_negative _ = False"

text \<open>The amounts of the groups of a window, in their order, when none of them throws.\<close>

definition group_amounts :: "group list \<Rightarrow> error + jsnum list" where
  "group_amounts gs = traverse group_amount gs"

text \<open>The amount of the last group of a window that carries the given name, if there is one.\<close>

definition last_amount :: "group list \<Rightarrow> string \<Rightarrow> jsnum option" where
  "last_amount gs name =
     (case filter (\<lambda>g. group_key g = name) gs of
        [] \<Rightarrow> None
      | f # fs \<Rightarrow> (case group_amount (last (f # fs)) of Inl _ \<Rightarrow> None | Inr a \<Rightarrow> Some a))"

text \<open>The value of a key of a JSON object.\<close>

fun json_field :: "string \<Rightarrow> json \<Rightarrow> json option" where
  "json_field k (JObj kvs) = map_of kvs k"
| "json_field k _ = None"

text \<open>
  What a number divided by a total of \<open>0\<close> and multiplied by \<open>100\<close> is: \<^verbatim>\<open>NaN\<close> for \<open>0\<close>,
  an infinity of its sign otherwise.
\<close>

fun zero_total_share :: "jsnum \<Rightarrow> jsnum" where
  "zero_total_share (Fin a) = (if a = 0 then NaN else if 0 < a then PInf else NInf)"
| "zero_total_share PInf = PInf"
| "zero_total_share NInf = NInf"
| "zero_total_share NaN = NaN"

text \<open>The message of the first configuration check that fails, in the order of the checks.\<close>

definition missing_key :: "env \<Rightarrow> string" where
  "missing_key e =
     (if unset (GITHUB_TOKEN e) then ''GITHUB_TOKEN''
      else if unset (GITHUB_OWNER e) then ''GITHUB_OWNER''
      else ''GITHUB_REPO'')"

section \<open>The specification's wording\<close>

text \<open>
  The classification as the specification words it: an ordered list of rules, each a set of
  keywords and a category; the first rule with a keyword contained in the lower-cased name
  wins, and a name no rule matches is \<open>Other\<close>.
\<close>

definition spec_rules :: "(string list \<times> category) list" where
  "spec_rules =
     [([''ec2''], Ec2),
      ([''guardduty'', ''vpc'', ''kms'', ''cloudfront''], Security),
      ([''cloudwatch'', ''secrets manager''], Management),
      ([''rds'', ''s3'', ''dynamodb'', ''glacier''], Storage),
      ([''tax''], Tax)]"

fun first_match :: "(string list \<times> category) list \<Rightarrow> string \<Rightarrow> category" where
  "first_match [] s = Other"
| "first_match ((ws, c) # rules) s =
     (if list_ex (\<lambda>w. sublist w s) ws then c else first_match rules s)"

definition spec_classify :: "string \<Rightarrow> category" where
  "spec_classify name = first_match spec_rules (toLowerCase name)"

text \<open>
  The change in percent as the testable property words it: \<open>0\<close> when both amounts are \<open>0\<close>,
  \<open>100\<close> when the previous amount is \<open>0\<close> and the current one is positive, the quotient
  otherwise.
\<close>

definition claimed_change :: "jsnum \<Rightarrow> jsnum \<Rightarrow> jsnum" where
  "claimed_change cur prev =
     (if cur = Fin 0 \<and> prev = Fin 0 then Fin 0
      else if prev = Fin 0 \<and> js_gt cur (Fin 0) then Fin 100
      else jsmul (jsdiv (jssub cur prev) prev) (Fin 100))"

text \<open>
  The rule for a change in percent as the data model words it: with a previous amount of \<open>0\<close>
  the change is \<open>0\<close> when the current amount is \<open>0\<close> and \<open>100\<close> when it is not; otherwise it
  is the difference over the previous amount, times \<open>100\<close>.
\<close>

definition zero_previous_rule :: "jsnum \<Rightarrow> jsnum \<Rightarrow> jsnum \<Rightarrow> bool" where
  "zero_previous_rule cur prev pct =
     ((prev = Fin 0 \<and> cur = Fin 0 \<longrightarrow> pct = Fin 0) \<and>
      (prev = Fin 0 \<and> cur \<noteq> Fin 0 \<longrightarrow> pct = Fin 100) \<and>
      (prev \<noteq> Fin 0 \<longrightarrow> pct = jsmul (jsdiv (jssub cur prev) prev) (Fin 100)))"

section \<open>Concrete inputs\<close>

definition group_of :: "string \<Rightarrow> jsnum \<Rightarrow> group" where
  "group_of name a =
     \<lparr>Keys = Some [name], Metrics = Some [(''UnblendedCost'', \<lparr>Amount = Some a\<rparr>)]\<rparr>"

definition keyless_group :: "jsnum \<Rightarrow> group" where
  "keyless_group a = \<lparr>Keys = None, Metrics = Some [(''UnblendedCost'', \<lparr>Amount = Some a\<rparr>)]\<rparr>"

definition response_of :: "group list \<Rightarrow> response" where
  "response_of gs = \<lparr>ResultsByTime = Some [\<lparr>Groups = Some gs\<rparr>]\<rparr>"

definition no_results :: response where
  "no_results = \<lparr>ResultsByTime = Some []\<rparr>"

text \<open>A provider that answers the window ending at \<open>now\<close> with the first response, any other with the second.\<close>

definition answering :: "int \<Rightarrow> response \<Rightarrow> response \<Rightarrow> provider" where
  "answering now cur prev = (\<lambda>start stop. if stop = now then Inr cur else Inr prev)"

definition accepting :: sink where
  "accepting = (\<lambda>_. None)"

definition rejecting :: sink where
  "rejecting = (\<lambda>_. Some (SinkError ''Bad credentials''))"

definition full_env :: env where
  "full_env = \<lparr>GITHUB_TOKEN = Some ''t'', GITHUB_OWNER = Some ''o'', GITHUB_REPO = Some ''r''\<rparr>"

definition no_token_env :: env where
  "no_token_env = \<lparr>GITHUB_TOKEN = None, GITHUB_OWNER = Some ''o'', GITHUB_REPO = Some ''r''\<rparr>"

text \<open>
  A result with two services: one of a large change and a tiny amount, one of a moderate
  change and a sizeable amount.
\<close>

definition tiny_service :: CostByService where
  "tiny_service = \<lparr>serviceName = ''AWS Lambda'', amount = Fin 0.001, unit = ''USD'',
                    previousAmount = Some (Fin (1 / 6000)), changePercentage = Some (Fin 500)\<rparr>"

definition sizeable_service :: CostByService where
  "sizeable_service = \<lparr>serviceName = ''Amazon EC2'', amount = Fin 5.00, unit = ''USD'',
                        previousAmount = Some (Fin (100 / 23)), changePercentage = Some (Fin 15)\<rparr>"

definition noisy_result :: CostResult where
  "noisy_result =
     \<lparr>costs = [sizeable_service, tiny_service],
      total_cost = Fin 5.001, previousTotal = Fin (100 / 23 + 1 / 6000),
      totalChangePercentage = change_percentage (Fin 5.001) (Fin (100 / 23 + 1 / 6000)),
      startDate = 9, endDate = 10,
      categories = set_category_changes
        (accumulate [sizeable_service, tiny_service] initial_categories)\<rparr>"

text \<open>A day on which a refund cancels the cost of the only other service.\<close>

definition cancelling_day :: response where
  "cancelling_day = response_of [group_of ''Amazon EC2'' (Fin 5), group_of ''Refund'' (Fin (- 5))]"

definition cancelling_result :: "error + CostResult" where
  "cancelling_result = aggregate cancelling_day (response_of []) 9 10"

section \<open>Numbers and the sort\<close>


lemma js_gt_sub: "a \<noteq> NaN \<Longrightarrow> b \<noteq> NaN \<Longrightarrow> js_gt (jssub b a) (Fin 0) = js_gt b a"
  by (cases a; cases b) (auto simp: jssub_def)

lemma js_ge_refl: "a \<noteq> NaN \<Longrightarrow> js_ge a a"
  by (simp add: js_ge_def)

lemma js_ge_trans: "js_ge a b \<Longrightarrow> js_ge b c \<Longrightarrow> js_ge a c"
  by (cases a; cases b; cases c) (auto simp: js_ge_def)

lemma js_not_gt: "a \<noteq> NaN \<Longrightarrow> b \<noteq> NaN \<Longrightarrow> \<not> js_gt a b \<Longrightarrow> js_ge b a"
  by (cases a; cases b) (auto simp: js_ge_def)

lemma js_gt_ge: "js_gt a b \<Longrightarrow> js_ge a b"
  by (cases a; cases b) (auto simp: js_ge_def)

lemma js_gt_not_eq: "js_gt a b \<Longrightarrow> a \<noteq> b"
  by (cases a; cases b) auto

lemma js_ge_gt_neq: "js_ge b c \<Longrightarrow> js_gt a b \<Longrightarrow> c \<noteq> a"
  by (cases a; cases b; cases c) (auto simp: js_ge_def)

lemma mset_sort_insert: "mset (sort_insert cmp x xs) = add_mset x (mset xs)"
  by (induction xs) auto

lemma set_sort_insert: "set (sort_insert cmp x xs) = insert x (set xs)"
  by (induction xs) auto

lemma desc_sort_insert:
  assumes "\<And>a b. cmp a b = jssub (key b) (key a)" "key x \<noteq> NaN" "\<forall>y\<in>set xs. key y \<noteq> NaN" "desc_by key xs"
  shows "desc_by key (sort_insert cmp x xs)"
  using assms(3,4)
proof (induction xs)
  case Nil
  then show ?case by (simp add: desc_by_def)
next
  case (Cons y ys)
  show ?case
  proof (cases "js_gt (key x) (key y)")
    case True
    have "\<forall>z\<in>set ys. js_ge (key x) (key z)"
      using True Cons.prems by (auto simp: desc_by_def intro: js_ge_trans js_gt_ge)
    then show ?thesis using True Cons.prems assms(1,2)
      by (simp add: desc_by_def js_gt_sub js_gt_ge)
  next
    case False
    then have "js_ge (key y) (key x)" using assms(2) Cons.prems by (simp add: js_not_gt)
    then show ?thesis using False Cons assms(1,2)
      by (auto simp: desc_by_def js_gt_sub set_sort_insert)
  qed
qed

lemma filter_sort_insert:
  assumes "\<And>a b. cmp a b = jssub (key b) (key a)" "key x \<noteq> NaN" "\<forall>y\<in>set xs. key y \<noteq> NaN" "desc_by key xs"
  shows "filter (\<lambda>c. key c = v) (sort_insert cmp x xs) = filter (\<lambda>c. key c = v) (xs @ [x])"
  using assms(3,4)
proof (induction xs)
  case Nil
  then show ?case by simp
next
  case (Cons y ys)
  show ?case
  proof (cases "js_gt (key x) (key y)")
    case True
    have "\<forall>z\<in>set (y # ys). key z \<noteq> key x"
      using True Cons.prems by (auto simp: desc_by_def dest: js_ge_gt_neq js_gt_not_eq)
    then have "filter (\<lambda>c. key c = key x) (y # ys) = []"
      by (simp only: filter_empty_conv)
    then show ?thesis using True assms(1,2) Cons.prems
      by (cases "v = key x") (auto simp: js_gt_sub)
  next
    case False
    then show ?thesis using Cons assms(1,2)
      by (auto simp: desc_by_def js_gt_sub)
  qed
qed

lemma array_sort_acc:
  assumes "\<And>a b. cmp a b = jssub (key b) (key a)" "\<forall>y\<in>set xs. key y \<noteq> NaN"
    "\<forall>y\<in>set acc. key y \<noteq> NaN" "desc_by key acc"
  shows "desc_by key (foldl (\<lambda>acc x. sort_insert cmp x acc) acc xs)
       \<and> mset (foldl (\<lambda>acc x. sort_insert cmp x acc) acc xs) = mset acc + mset xs
       \<and> (\<forall>v. filter (\<lambda>c. key c = v) (foldl (\<lambda>acc x. sort_insert cmp x acc) acc xs)
              = filter (\<lambda>c. key c = v) (acc @ xs))"
  using assms(2-)
proof (induction xs arbitrary: acc)
  case Nil
  then show ?case by simp
next
  case (Cons x xs)
  have 1: "desc_by key (sort_insert cmp x acc)"
    using desc_sort_insert[of cmp key x acc] assms(1) Cons.prems by simp
  have 2: "\<forall>y\<in>set (sort_insert cmp x acc). key y \<noteq> NaN"
    using Cons.prems by (simp add: set_sort_insert)
  have 3: "\<forall>y\<in>set xs. key y \<noteq> NaN" using Cons.prems by simp
  have 4: "\<And>v. filter (\<lambda>c. key c = v) (sort_insert cmp x acc) = filter (\<lambda>c. key c = v) (acc @ [x])"
    using filter_sort_insert[of cmp key x acc] assms(1) Cons.prems by simp
  from Cons.IH[OF 3 2 1] show ?case
    by (simp add: mset_sort_insert 4)
qed

lemma array_sort_props:
  assumes "\<And>a b. cmp a b = jssub (key b) (key a)" "\<forall>y\<in>set xs. key y \<noteq> NaN"
  shows "desc_by key (array_sort cmp xs)" "mset (array_sort cmp xs) = mset xs"
   "filter (\<lambda>c. key c = v) (array_sort cmp xs) = filter (\<lambda>c. key c = v) xs"
  using array_sort_acc[of cmp key xs "[]"] assms by (simp_all add: array_sort_def desc_by_def)

section \<open>Maps, sets and the loop over the groups\<close>



lemma map_get_map_set: "map_get (map_set k v m) k' = (if k' = k then Some v else map_get m k')"
  by (induction m) auto

lemma keys_map_set:
  "map_keys (map_set k v m) = (if k \<in> set (map_keys m) then map_keys m else map_keys m @ [k])"
  by (induction m) (force simp: map_keys_def)+


lemma distinct_map_set: "distinct (map_keys m) \<Longrightarrow> distinct (map_keys (map_set k v m))"
  by (simp add: keys_map_set)

lemma new_Set_acc:
  "distinct acc \<Longrightarrow> distinct (foldl (\<lambda>s x. set_add x s) acc xs)
     \<and> set (foldl (\<lambda>s x. set_add x s) acc xs) = set acc \<union> set xs"
  by (induction xs arbitrary: acc) (auto simp: set_add_def)

lemma distinct_new_Set: "distinct (new_Set xs)"
  using new_Set_acc[of "[]" xs] by (simp add: new_Set_def)

lemma set_new_Set: "set (new_Set xs) = set xs"
  using new_Set_acc[of "[]" xs] by (simp add: new_Set_def)

lemma process_groups_total:
  "process_groups gs (tot, m) = Inr (tot', m') \<Longrightarrow>
     \<exists>as. group_amounts gs = Inr as \<and> tot' = tot + sum_list as"
proof (induction gs arbitrary: tot m)
  case Nil
  then show ?case by (simp add: group_amounts_def)
next
  case (Cons g gs)
  then obtain a where a: "group_amount g = Inr a"
    and rest: "process_groups gs (tot + a, map_set (group_key g) a m) = Inr (tot', m')"
    by (auto split: sum.splits)
  from Cons.IH[OF rest] obtain as where "group_amounts gs = Inr as" "tot' = tot + a + sum_list as"
    by auto
  then show ?case using a by (simp add: group_amounts_def add.assoc)
qed


lemma process_groups_keys:
  "process_groups gs (tot, m) = Inr (tot', m') \<Longrightarrow>
     (distinct (map_keys m) \<longrightarrow> distinct (map_keys m'))
     \<and> set (map_keys m') = set (map_keys m) \<union> group_key ` set gs"
proof (induction gs arbitrary: tot m)
  case Nil
  then show ?case by simp
next
  case (Cons g gs)
  then obtain a where a: "group_amount g = Inr a"
    and rest: "process_groups gs (tot + a, map_set (group_key g) a m) = Inr (tot', m')"
    by (auto split: sum.splits)
  from Cons.IH[OF rest] show ?case
    by (auto simp: keys_map_set split: if_splits)
qed

lemma process_groups_get:
  "process_groups gs (tot, m) = Inr (tot', m') \<Longrightarrow>
     map_get m' k = (if filter (\<lambda>g. group_key g = k) gs = [] then map_get m k else last_amount gs k)"
proof (induction gs arbitrary: tot m)
  case Nil
  then show ?case by simp
next
  case (Cons g gs)
  then obtain a where a: "group_amount g = Inr a"
    and rest: "process_groups gs (tot + a, map_set (group_key g) a m) = Inr (tot', m')"
    by (auto split: sum.splits)
  have la: "filter (\<lambda>g. group_key g = k) gs \<noteq> [] \<Longrightarrow> last_amount (g # gs) k = last_amount gs k"
    by (auto simp: last_amount_def split: list.splits)
  have lb: "filter (\<lambda>g. group_key g = k) gs = [] \<Longrightarrow> group_key g = k \<Longrightarrow> last_amount (g # gs) k = Some a"
    using a by (auto simp: last_amount_def split: list.splits)
  from Cons.IH[OF rest] show ?case
    by (auto simp: map_get_map_set la lb)
qed




section \<open>The run\<close>

lemma getCostsByService_fetches:
  assumes "getCostsByService ce now = (fetches, Inr result)"
  shows "fetches = [Fetch (now - 1) now, Fetch (now - 2) (now - 1)]"
  using assms by (auto simp: getCostsByService_def Let_def split: sum.splits)

lemma createGitHubIssue_unset:
  assumes "unset (GITHUB_TOKEN e) \<or> unset (GITHUB_OWNER e) \<or> unset (GITHUB_REPO e)"
  shows "createGitHubIssue e octokit today r =
           ([], Inl (Error (missing_key e @ '' environment variable is not set'')))"
  using assms by (auto simp: createGitHubIssue_def missing_key_def)

lemma createGitHubIssue_sent:
  assumes "createGitHubIssue e octokit today r = (sent, out)"
  shows "(sent = [] \<and> out \<noteq> Inr ()) \<or>
         (\<exists>req. sent = [CreateIssue req] \<and>
                out = (case octokit req of Some err \<Rightarrow> Inl err | None \<Rightarrow> Inr ()))"
  using assms by (auto simp: createGitHubIssue_def Let_def split: if_splits sum.splits)

lemma aggregate_empty_day:
  "aggregate (response_of []) (response_of []) y n =
     Inr \<lparr>costs = [], total_cost = Fin 0, previousTotal = Fin 0, totalChangePercentage = Fin 0,
          startDate = y, endDate = n, categories = set_category_changes initial_categories\<rparr>"
  by (simp add: aggregate_def window_costs_def response_groups_def response_of_def
      unsorted_costs_def allServices_def new_Set_def map_keys_def array_sort_def change_percentage_def)

lemma getCostsByService_empty_day:
  "getCostsByService (answering 10 (response_of []) (response_of [])) 10 =
     ([Fetch 9 10, Fetch 8 9],
      Inr \<lparr>costs = [], total_cost = Fin 0, previousTotal = Fin 0, totalChangePercentage = Fin 0,
           startDate = 9, endDate = 10, categories = set_category_changes initial_categories\<rparr>)"
  by (simp add: getCostsByService_def answering_def aggregate_empty_day)

text \<open>
  C1, as stated, fails: with the token unset and a provider that answers, the run makes both
  requests to the provider before the configuration is looked at.
\<close>

theorem C1_fetches_before_config_check:
  "unset (GITHUB_TOKEN no_token_env) \<and>
   fetch_count (main no_token_env (answering 10 (response_of []) (response_of [])) accepting 10 10) = 2"
  by (simp add: main_def getCostsByService_empty_day createGitHubIssue_def no_token_env_def
      unset_def fetch_count_def)

text \<open>
  C1, amended: when the aggregation succeeds and a required configuration value is absent, the
  run is the two provider requests, the summary on standard output, then the error naming the
  first missing key and exit status 1; no request reaches the issue sink.
\<close>

theorem C1_missing_config_fails_after_fetch:
  assumes "getCostsByService ce now = (fetches, Inr result)"
      and "unset (GITHUB_TOKEN e) \<or> unset (GITHUB_OWNER e) \<or> unset (GITHUB_REPO e)"
  shows "main e ce octokit now today =
           [Fetch (now - 1) now, Fetch (now - 2) (now - 1), Stdout (summary_document result),
            Stderr (Error (missing_key e @ '' environment variable is not set'')), Exit 1]
         \<and> fetch_count (main e ce octokit now today) = 2
         \<and> issue_count (main e ce octokit now today) = 0"
  using getCostsByService_fetches[OF assms(1)] assms(1) createGitHubIssue_unset[OF assms(2)]
  by (simp add: main_def fetch_count_def issue_count_def)

theorem C1_missing_config_witness:
  "unset (GITHUB_TOKEN no_token_env) \<and>
   main no_token_env (answering 10 (response_of []) (response_of [])) accepting 10 10 =
     [Fetch 9 10, Fetch 8 9,
      Stdout (summary_document
        \<lparr>costs = [], total_cost = Fin 0, previousTotal = Fin 0, totalChangePercentage = Fin 0,
         startDate = 9, endDate = 10, categories = set_category_changes initial_categories\<rparr>),
      Stderr (Error ''GITHUB_TOKEN environment variable is not set''), Exit 1]
   \<and> issue_count (main no_token_env (answering 10 (response_of []) (response_of [])) accepting 10 10) = 0"
proof -
  have u: "unset (GITHUB_TOKEN no_token_env) \<or> unset (GITHUB_OWNER no_token_env)
           \<or> unset (GITHUB_REPO no_token_env)"
    by (simp add: no_token_env_def unset_def)
  have m: "missing_key no_token_env = ''GITHUB_TOKEN''"
    by (simp add: missing_key_def no_token_env_def unset_def)
  have t: "unset (GITHUB_TOKEN no_token_env)"
    by (simp add: no_token_env_def unset_def)
  show ?thesis
    using C1_missing_config_fails_after_fetch[OF getCostsByService_empty_day u, of accepting 10] m t
    by (simp add: issue_count_def)
qed

lemma window_costs_without_groups:
  assumes "ResultsByTime r = None \<or>
           (\<exists>t ts. ResultsByTime r = Some (t # ts) \<and> (Groups t = None \<or> Groups t = Some []))"
  shows "window_costs r = Inr (Fin 0, [])"
  using assms by (auto simp: window_costs_def response_groups_def)

text \<open>
  C5: the claim holds for a response without \<^verbatim>\<open>ResultsByTime\<close> and for one whose first
  result has no or no groups, but a response whose \<^verbatim>\<open>ResultsByTime\<close> is the empty array makes
  the aggregator throw, and the run ends with exit status 1 and no summary.
\<close>

theorem C5_empty_result_set_throws:
  "aggregate no_results (response_of []) 9 10 = Inl TypeError \<and>
   aggregate (response_of []) no_results 9 10 = Inl TypeError \<and>
   main full_env (answering 10 no_results (response_of [])) accepting 10 10 =
     [Fetch 9 10, Fetch 8 9, Stderr TypeError, Exit 1]"
  by (simp add: main_def getCostsByService_def answering_def aggregate_def window_costs_def
      response_groups_def no_results_def response_of_def)

text \<open>
  C8: whenever the aggregation succeeds, the trace of the run is the provider requests, then
  the summary on standard output, then the rest; no request to the issue sink precedes the
  summary, and when the sink rejects the request the rest is that request, the error and exit
  status 1.
\<close>

theorem C8_summary_before_publish:
  assumes "getCostsByService ce now = (fetches, Inr result)"
  shows "\<exists>rest. main e ce octokit now today = fetches @ Stdout (summary_document result) # rest
           \<and> issue_count fetches = 0
           \<and> (\<forall>req err. CreateIssue req \<in> set rest \<and> octokit req = Some err \<longrightarrow>
                 rest = [CreateIssue req, Stderr err, Exit 1])"
proof -
  obtain sent out where c: "createGitHubIssue e octokit today result = (sent, out)"
    by (cases "createGitHubIssue e octokit today result")
  from createGitHubIssue_sent[OF c] getCostsByService_fetches[OF assms] assms c show ?thesis
    by (cases out) (auto simp: main_def issue_count_def)
qed

theorem C8_summary_before_publish_witness:
  "\<exists>req. main full_env (answering 10 (response_of []) (response_of [])) rejecting 10 10 =
     [Fetch 9 10, Fetch 8 9,
      Stdout (summary_document
        \<lparr>costs = [], total_cost = Fin 0, previousTotal = Fin 0, totalChangePercentage = Fin 0,
         startDate = 9, endDate = 10, categories = set_category_changes initial_categories\<rparr>),
      CreateIssue req, Stderr (SinkError ''Bad credentials''), Exit 1]"
proof -
  let ?r = "\<lparr>costs = [], total_cost = Fin 0, previousTotal = Fin 0, totalChangePercentage = Fin 0,
         startDate = 9, endDate = 10, categories = set_category_changes initial_categories\<rparr>"
  from C8_summary_before_publish[OF getCostsByService_empty_day, of full_env rejecting 10]
  obtain rest where
    m: "main full_env (answering 10 (response_of []) (response_of [])) rejecting 10 10 =
          [Fetch 9 10, Fetch 8 9] @ Stdout (summary_document ?r) # rest"
    and r: "\<forall>req err. CreateIssue req \<in> set rest \<and> rejecting req = Some err \<longrightarrow>
                 rest = [CreateIssue req, Stderr err, Exit 1]"
    by blast
  have "\<exists>req. CreateIssue req \<in> set rest"
    using m by (auto simp: main_def getCostsByService_empty_day createGitHubIssue_def full_env_def
        unset_def issueBody_def Let_def rejecting_def)
  then obtain req where "CreateIssue req \<in> set rest" by blast
  with r have "rest = [CreateIssue req, Stderr (SinkError ''Bad credentials''), Exit 1]"
    by (simp add: rejecting_def)
  with m show ?thesis by auto
qed



section \<open>Classification\<close>

lemma startsWith_prefix: "startsWith s w = prefix w s"
  by (induction s w rule: startsWith.induct) auto

lemma includes_str_sublist: "includes_str s w = sublist w s"
  by (induction s) (auto simp: startsWith_prefix sublist_Cons_right)

lemma some_list_ex: "some p xs = list_ex p xs"
  by (induction xs) auto

lemma lower_char_alt:
  "lower_char c = (if 65 \<le> (of_char c :: nat) \<and> (of_char c :: nat) \<le> 90
                   then char_of (of_char c + 32 :: nat) else c)"
  by (simp add: lower_char_def Let_def)

lemma upper_char_alt:
  "upper_char c = (if 97 \<le> (of_char c :: nat) \<and> (of_char c :: nat) \<le> 122
                   then char_of (of_char c - 32 :: nat) else c)"
  by (simp add: upper_char_def Let_def)

lemma of_char_shift_up:
  assumes "65 \<le> (of_char c :: nat)" "(of_char c :: nat) \<le> 90"
  shows "(of_char (char_of (of_char c + 32 :: nat) :: char) :: nat) = of_char c + 32"
proof -
  have "(of_char c + 32 :: nat) mod 256 = of_char c + 32"
    by (rule mod_less) (use assms in arith)
  then show ?thesis by (simp only: of_char_of)
qed

lemma of_char_shift_down:
  assumes "97 \<le> (of_char c :: nat)" "(of_char c :: nat) \<le> 122"
  shows "(of_char (char_of (of_char c - 32 :: nat) :: char) :: nat) = of_char c - 32"
proof -
  have "(of_char c - 32 :: nat) mod 256 = of_char c - 32"
    by (rule mod_less) (use assms in arith)
  then show ?thesis by (simp only: of_char_of)
qed

lemma lower_upper_char: "lower_char (upper_char c) = lower_char c"
proof (cases "97 \<le> (of_char c :: nat) \<and> (of_char c :: nat) \<le> 122")
  case True
  then have u: "upper_char c = char_of (of_char c - 32 :: nat)"
    by (simp add: upper_char_alt)
  have d: "(of_char (upper_char c) :: nat) = of_char c - 32"
    unfolding u using True by (intro of_char_shift_down) simp_all
  have "(of_char c - 32 :: nat) + 32 = of_char c"
    and "65 \<le> (of_char c - 32 :: nat)" and "(of_char c - 32 :: nat) \<le> 90"
    using True by arith+
  then have "lower_char (upper_char c) = c"
    by (simp add: lower_char_alt[of "upper_char c"] d)
  moreover have "lower_char c = c"
    using True by (simp add: lower_char_alt)
  ultimately show ?thesis by simp
next
  case False
  then show ?thesis by (auto simp: upper_char_alt)
qed

lemma lower_lower_char: "lower_char (lower_char c) = lower_char c"
proof (cases "65 \<le> (of_char c :: nat) \<and> (of_char c :: nat) \<le> 90")
  case True
  then have u: "lower_char c = char_of (of_char c + 32 :: nat)"
    by (simp add: lower_char_alt)
  have d: "(of_char (lower_char c) :: nat) = of_char c + 32"
    unfolding u using True by (intro of_char_shift_up) simp_all
  have "\<not> (of_char c + 32 :: nat) \<le> 90"
    using True by arith
  then show ?thesis
    by (simp add: lower_char_alt[of "lower_char c"] d)
next
  case False
  then show ?thesis by (auto simp: lower_char_alt)
qed

lemma toLowerCase_toUpperCase: "toLowerCase (toUpperCase s) = toLowerCase s"
  by (simp add: toLowerCase_def toUpperCase_def lower_upper_char)

lemma toLowerCase_idem: "toLowerCase (toLowerCase s) = toLowerCase s"
  by (simp add: toLowerCase_def lower_lower_char)

lemma classify_lower: "toLowerCase a = toLowerCase b \<Longrightarrow> classify a = classify b"
  by (simp add: classify_def)

lemma classify_refines: "classify name = spec_classify name"
  by (simp add: classify_def spec_classify_def spec_rules_def includes_str_sublist some_list_ex Let_def)

lemma classify_examples:
  "classify ''Amazon EC2'' = Ec2" "classify ''amazon ec2'' = Ec2" "classify ''AMAZON-EC2-INSTANCE'' = Ec2"
  by code_simp+

text \<open>
  C4: the classification of the code is the ordered rule list of the specification, first
  match wins; it maps every name to one of the six categories; names that differ only in the
  case of their letters get the same category.
\<close>

theorem C4_classification:
  "classify name = spec_classify name
   \<and> classify name \<in> set category_order \<and> distinct category_order \<and> length category_order = 6
   \<and> (toLowerCase other = toLowerCase name \<longrightarrow> classify other = classify name)
   \<and> classify (toUpperCase name) = classify name
   \<and> classify (toLowerCase name) = classify name
   \<and> classify ''Amazon EC2'' = Ec2 \<and> classify ''amazon ec2'' = Ec2
   \<and> classify ''AMAZON-EC2-INSTANCE'' = Ec2"
proof -
  have "classify name \<in> set category_order"
    by (cases "classify name") (simp_all add: category_order_def)
  moreover have "distinct category_order" "length category_order = 6"
    by (simp_all add: category_order_def)
  moreover have "classify (toUpperCase name) = classify name"
    by (rule classify_lower) (rule toLowerCase_toUpperCase)
  moreover have "classify (toLowerCase name) = classify name"
    by (rule classify_lower) (rule toLowerCase_idem)
  ultimately show ?thesis
    using classify_refines classify_lower classify_examples by blast
qed

theorem C4_classification_witness:
  "toLowerCase ''AMAZON CLOUDWATCH'' = toLowerCase ''Amazon CloudWatch''
   \<and> classify ''AMAZON CLOUDWATCH'' = classify ''Amazon CloudWatch''
   \<and> spec_classify ''Amazon CloudWatch'' = Management"
proof -
  have l: "toLowerCase ''AMAZON CLOUDWATCH'' = toLowerCase ''Amazon CloudWatch''"
    by code_simp
  have c: "classify ''Amazon CloudWatch'' = Management"
    by code_simp
  show ?thesis
    using C4_classification[of "''Amazon CloudWatch''" "''AMAZON CLOUDWATCH''"] l c by simp
qed



section \<open>The aggregate\<close>

lemma aggregate_Inr:
  assumes "window_costs cr = Inr (t1, cur)" "window_costs pr = Inr (t2, prev)"
  shows "aggregate cr pr y n =
     Inr \<lparr>costs = array_sort by_amount_desc (unsorted_costs cur prev),
          total_cost = t1, previousTotal = t2,
          totalChangePercentage = change_percentage t1 t2,
          startDate = y, endDate = n,
          categories = set_category_changes
            (accumulate (array_sort by_amount_desc (unsorted_costs cur prev)) initial_categories)\<rparr>"
  using assms by (simp add: aggregate_def Let_def)

lemma aggregate_InrD:
  assumes "aggregate cr pr y n = Inr r"
  obtains t1 cur t2 prev where "window_costs cr = Inr (t1, cur)" "window_costs pr = Inr (t2, prev)"
  using assms by (auto simp: aggregate_def split: sum.splits)

lemma window_costs_response_of: "window_costs (response_of gs) = process_groups gs (Fin 0, [])"
  by (simp add: window_costs_def response_groups_def response_of_def)

lemma group_amount_group_of: "group_amount (group_of name a) = Inr a"
  by (simp add: group_amount_def group_of_def)

lemma group_key_group_of: "name \<noteq> [] \<Longrightarrow> group_key (group_of name a) = name"
  by (simp add: group_key_def group_of_def)

lemma opt_or_zero_not_NaN: "opt_or_zero x \<noteq> NaN"
  by (simp add: opt_or_zero_def or_zero_def split: option.splits)

lemma unsorted_amount_not_NaN: "c \<in> set (unsorted_costs cur prev) \<Longrightarrow> amount c \<noteq> NaN"
  by (auto simp: unsorted_costs_def service_cost_def opt_or_zero_not_NaN Let_def)

lemma costs_sorted_props:
  "desc_by amount (array_sort by_amount_desc (unsorted_costs cur prev))"
  "mset (array_sort by_amount_desc (unsorted_costs cur prev)) = mset (unsorted_costs cur prev)"
  "filter (\<lambda>c. amount c = v) (array_sort by_amount_desc (unsorted_costs cur prev))
     = filter (\<lambda>c. amount c = v) (unsorted_costs cur prev)"
  using array_sort_props[of by_amount_desc amount "unsorted_costs cur prev"]
    unsorted_amount_not_NaN[of _ cur prev]
  by (auto simp: by_amount_desc_def)

lemma set_costs_sorted:
  "set (array_sort by_amount_desc (unsorted_costs cur prev)) = set (unsorted_costs cur prev)"
  using costs_sorted_props(2)[of cur prev] by (metis set_mset_mset)

lemma change_percentage_rule: "zero_previous_rule cur prev (change_percentage cur prev)"
  by (simp add: zero_previous_rule_def change_percentage_def)

lemma change_percentage_finite:
  "b \<noteq> 0 \<Longrightarrow> change_percentage (Fin a) (Fin b) = Fin ((a - b) / b * 100)"
  by (simp add: change_percentage_def jssub_def)

lemma service_cost_rule:
  "c \<in> set (unsorted_costs cur prev) \<Longrightarrow>
     \<exists>p q. previousAmount c = Some p \<and> changePercentage c = Some q \<and> zero_previous_rule (amount c) p q"
  by (auto simp: unsorted_costs_def service_cost_def Let_def change_percentage_rule)

text \<open>
  C3, as stated, fails: a service with a negative current amount and no previous amount is
  neither of the two special cases of the claim, yet its change is \<open>100\<close> and not the
  quotient, which is \<^verbatim>\<open>-Infinity\<close>.
\<close>

theorem C3_negative_current_zero_previous:
  "\<not> isl (aggregate (response_of [group_of ''Refund'' (Fin (- 5))]) (response_of []) 9 10)
   \<and> map amount (costs (projr
        (aggregate (response_of [group_of ''Refund'' (Fin (- 5))]) (response_of []) 9 10)))
      = [Fin (- 5)]
   \<and> map previousAmount (costs (projr
        (aggregate (response_of [group_of ''Refund'' (Fin (- 5))]) (response_of []) 9 10)))
      = [Some (Fin 0)]
   \<and> map changePercentage (costs (projr
        (aggregate (response_of [group_of ''Refund'' (Fin (- 5))]) (response_of []) 9 10)))
      = [Some (Fin 100)]
   \<and> claimed_change (Fin (- 5)) (Fin 0) = NInf"
  by (simp add: aggregate_def window_costs_response_of group_amount_group_of group_key_group_of
      unsorted_costs_def allServices_def new_Set_def set_add_def map_keys_def service_cost_def
      opt_or_zero_def or_zero_def change_percentage_def array_sort_def claimed_change_def
      jssub_def inf_of_sign_def zero_jsnum_def plus_jsnum_def Let_def)

text \<open>
  C3, amended: for every service, every category and the grand total of a result of the
  aggregator, the change is \<open>0\<close> when previous and current amount are \<open>0\<close>, \<open>100\<close> when the
  previous amount is \<open>0\<close> and the current one is not (positive or negative), and otherwise the
  difference over the previous amount times \<open>100\<close>, which for finite amounts is the real quotient.
\<close>

theorem C3_change_percentage:
  assumes "aggregate cr pr y n = Inr r"
  shows "(\<forall>c\<in>set (costs r). \<exists>p q. previousAmount c = Some p \<and> changePercentage c = Some q \<and>
            zero_previous_rule (amount c) p q)
       \<and> (\<forall>k. zero_previous_rule (current (categories r k)) (previous (categories r k))
                 (changePercentage_cat (categories r k)))
       \<and> zero_previous_rule (total_cost r) (previousTotal r) (totalChangePercentage r)
       \<and> (\<forall>a b. b \<noteq> 0 \<longrightarrow> change_percentage (Fin a) (Fin b) = Fin ((a - b) / b * 100))"
proof -
  from assms obtain t1 cur t2 prev where
    w: "window_costs cr = Inr (t1, cur)" "window_costs pr = Inr (t2, prev)"
    by (rule aggregate_InrD)
  from assms have r: "r = \<lparr>costs = array_sort by_amount_desc (unsorted_costs cur prev),
          total_cost = t1, previousTotal = t2,
          totalChangePercentage = change_percentage t1 t2,
          startDate = y, endDate = n,
          categories = set_category_changes
            (accumulate (array_sort by_amount_desc (unsorted_costs cur prev)) initial_categories)\<rparr>"
    by (simp add: aggregate_Inr[OF w])
  have 1: "\<forall>c\<in>set (costs r). \<exists>p q. previousAmount c = Some p \<and> changePercentage c = Some q \<and>
            zero_previous_rule (amount c) p q"
    using service_cost_rule[of _ cur prev] by (simp add: r set_costs_sorted)
  have 2: "\<forall>k. zero_previous_rule (current (categories r k)) (previous (categories r k))
                 (changePercentage_cat (categories r k))"
    by (simp add: r set_category_changes_def change_percentage_rule)
  have 3: "zero_previous_rule (total_cost r) (previousTotal r) (totalChangePercentage r)"
    by (simp add: r change_percentage_rule)
  from 1 2 3 show ?thesis by (simp add: change_percentage_finite)
qed

lemma aggregate_zero_service:
  "aggregate (response_of [group_of ''Amazon EC2'' (Fin 0)]) (response_of [group_of ''Amazon EC2'' (Fin 0)]) 9 10
   = Inr \<lparr>costs = [\<lparr>serviceName = ''Amazon EC2'', amount = Fin 0, unit = ''USD'',
                     previousAmount = Some (Fin 0), changePercentage = Some (Fin 0)\<rparr>],
          total_cost = Fin 0, previousTotal = Fin 0, totalChangePercentage = Fin 0,
          startDate = 9, endDate = 10,
          categories = set_category_changes (accumulate
             [\<lparr>serviceName = ''Amazon EC2'', amount = Fin 0, unit = ''USD'',
                     previousAmount = Some (Fin 0), changePercentage = Some (Fin 0)\<rparr>] initial_categories)\<rparr>"
  by (simp add: aggregate_def window_costs_response_of group_amount_group_of group_key_group_of
      unsorted_costs_def allServices_def new_Set_def set_add_def map_keys_def service_cost_def
      opt_or_zero_def or_zero_def change_percentage_def array_sort_def
      zero_jsnum_def plus_jsnum_def Let_def)

theorem C3_change_percentage_witness:
  "changePercentage \<lparr>serviceName = ''Amazon EC2'', amount = Fin 0, unit = ''USD'',
                     previousAmount = Some (Fin 0), changePercentage = Some (Fin 0)\<rparr> = Some (Fin 0)
   \<and> zero_previous_rule (Fin 0) (Fin 0) (Fin 0)
   \<and> change_percentage (Fin 23) (Fin 20) = Fin 15"
  using C3_change_percentage[OF aggregate_zero_service]
  by (simp add: zero_previous_rule_def)



section \<open>Order of the services\<close>

lemma window_costs_groups:
  "response_groups cr = Inr gs \<Longrightarrow> window_costs cr = process_groups gs (Fin 0, [])"
  by (simp add: window_costs_def)

lemma aggregate_costs:
  assumes "aggregate cr pr y n = Inr r"
    and "window_costs cr = Inr (t1, cur)" "window_costs pr = Inr (t2, prev)"
  shows "costs r = array_sort by_amount_desc (unsorted_costs cur prev)"
    and "total_cost r = t1" and "previousTotal r = t2"
    and "categories r = set_category_changes (accumulate (costs r) initial_categories)"
  using assms(1) unfolding aggregate_Inr[OF assms(2,3)] by auto

text \<open>
  C7: the services of a result are in non-increasing order of their current amount, and the
  services of one amount stand in the order in which the loop over the names built them.
\<close>

theorem C7_sorted_stable:
  assumes "aggregate cr pr y n = Inr r"
  shows "desc_by amount (costs r)
       \<and> (\<exists>t1 cur t2 prev. window_costs cr = Inr (t1, cur) \<and> window_costs pr = Inr (t2, prev)
            \<and> mset (costs r) = mset (unsorted_costs cur prev)
            \<and> (\<forall>v. filter (\<lambda>c. amount c = v) (costs r)
                     = filter (\<lambda>c. amount c = v) (unsorted_costs cur prev)))"
proof -
  from assms obtain t1 cur t2 prev where
    w: "window_costs cr = Inr (t1, cur)" "window_costs pr = Inr (t2, prev)"
    by (rule aggregate_InrD)
  have c: "costs r = array_sort by_amount_desc (unsorted_costs cur prev)"
    by (rule aggregate_costs(1)[OF assms w])
  show ?thesis
    using w costs_sorted_props[where cur = cur and prev = prev] unfolding c by blast
qed

lemma aggregate_ties:
  "\<exists>r. aggregate
      (response_of [group_of ''A'' (Fin 1), group_of ''B'' (Fin 3), group_of ''C'' (Fin 1),
                    group_of ''D'' (Fin 3)])
      (response_of [group_of ''E'' (Fin 2)]) 9 10 = Inr r
    \<and> map serviceName (costs r) = [''B'', ''D'', ''A'', ''C'', ''E'']
    \<and> map amount (costs r) = [Fin 3, Fin 3, Fin 1, Fin 1, Fin 0]"
  by (simp add: aggregate_def window_costs_response_of group_amount_group_of group_key_group_of
      unsorted_costs_def allServices_def new_Set_def set_add_def map_keys_def service_cost_def
      opt_or_zero_def or_zero_def array_sort_def by_amount_desc_def jssub_def
      zero_jsnum_def plus_jsnum_def Let_def)

theorem C7_sorted_stable_witness:
  "\<exists>r. aggregate
      (response_of [group_of ''A'' (Fin 1), group_of ''B'' (Fin 3), group_of ''C'' (Fin 1),
                    group_of ''D'' (Fin 3)])
      (response_of [group_of ''E'' (Fin 2)]) 9 10 = Inr r
    \<and> map serviceName (costs r) = [''B'', ''D'', ''A'', ''C'', ''E'']
    \<and> desc_by amount (costs r)"
proof -
  from aggregate_ties obtain r where
    r: "aggregate
      (response_of [group_of ''A'' (Fin 1), group_of ''B'' (Fin 3), group_of ''C'' (Fin 1),
                    group_of ''D'' (Fin 3)])
      (response_of [group_of ''E'' (Fin 2)]) 9 10 = Inr r
      \<and> map serviceName (costs r) = [''B'', ''D'', ''A'', ''C'', ''E'']
      \<and> map amount (costs r) = [Fin 3, Fin 3, Fin 1, Fin 1, Fin 0]"
    by (rule exE)
  have "desc_by amount (costs r)"
    using C7_sorted_stable[OF r[THEN conjunct1]] by (rule conjunct1)
  with r show ?thesis by (intro exI[of _ r]) simp
qed

section \<open>Names and last writes\<close>

lemma process_groups_get_empty:
  assumes "process_groups gs (tot, []) = Inr (tot', m')"
  shows "map_get m' k = last_amount gs k"
  using process_groups_get[OF assms, of k] by (auto simp: last_amount_def)

lemma process_groups_total_zero:
  assumes "process_groups gs (Fin 0, m) = Inr (tot', m')"
  shows "\<exists>as. group_amounts gs = Inr as \<and> tot' = sum_list as"
  using process_groups_total[OF assms] by (auto simp: zero_jsnum_def[symmetric])

lemma serviceName_unsorted: "map serviceName (unsorted_costs cur prev) = allServices cur prev"
  by (simp add: unsorted_costs_def service_cost_def Let_def comp_def)

lemma set_allServices: "set (allServices cur prev) = set (map_keys cur) \<union> set (map_keys prev)"
  by (simp add: allServices_def set_new_Set)

lemma distinct_allServices: "distinct (allServices cur prev)"
  by (simp add: allServices_def distinct_new_Set)

lemma names_sorted:
  "mset (map serviceName (array_sort by_amount_desc (unsorted_costs cur prev))) = mset (allServices cur prev)"
  using costs_sorted_props(2)[where cur = cur and prev = prev] serviceName_unsorted[of cur prev]
  by (metis mset_map)

lemma group_key_keyless: "Keys g = None \<Longrightarrow> group_key g = ''Unknown''"
  by (simp add: group_key_def)

text \<open>
  C9: a group without a name is recorded under \<open>Unknown\<close>. The total of a window is the sum
  of the amounts of all its groups, while the service of a name carries the amount of the last
  group of that name in the window (\<open>0\<close> when there is none, or when that amount is \<open>0\<close> or
  \<^verbatim>\<open>NaN\<close>); each name occurs once in the list of services.
\<close>

theorem C9_unknown_and_last_write:
  assumes "response_groups cr = Inr gs" "response_groups pr = Inr hs"
      and "aggregate cr pr y n = Inr r"
  shows "(\<exists>as. group_amounts gs = Inr as \<and> total_cost r = sum_list as)
       \<and> (\<exists>bs. group_amounts hs = Inr bs \<and> previousTotal r = sum_list bs)
       \<and> (\<forall>c\<in>set (costs r).
             amount c = opt_or_zero (last_amount gs (serviceName c)) \<and>
             previousAmount c = Some (opt_or_zero (last_amount hs (serviceName c))))
       \<and> distinct (map serviceName (costs r))
       \<and> set (map serviceName (costs r)) = group_key ` set gs \<union> group_key ` set hs
       \<and> (\<forall>g. Keys g = None \<longrightarrow> group_key g = ''Unknown'')"
proof -
  from assms(3) obtain t1 cur t2 prev where
    w: "window_costs cr = Inr (t1, cur)" "window_costs pr = Inr (t2, prev)"
    by (rule aggregate_InrD)
  have p: "process_groups gs (Fin 0, []) = Inr (t1, cur)" "process_groups hs (Fin 0, []) = Inr (t2, prev)"
    using w assms(1,2) by (simp_all add: window_costs_groups)
  note a = aggregate_costs[OF assms(3) w]
  have 1: "\<exists>as. group_amounts gs = Inr as \<and> total_cost r = sum_list as"
    using process_groups_total_zero[OF p(1)] a(2) by simp
  have 2: "\<exists>bs. group_amounts hs = Inr bs \<and> previousTotal r = sum_list bs"
    using process_groups_total_zero[OF p(2)] a(3) by simp
  have g: "\<And>k. map_get cur k = last_amount gs k" "\<And>k. map_get prev k = last_amount hs k"
    using process_groups_get_empty[OF p(1)] process_groups_get_empty[OF p(2)] by simp_all
  have 3: "\<forall>c\<in>set (costs r).
             amount c = opt_or_zero (last_amount gs (serviceName c)) \<and>
             previousAmount c = Some (opt_or_zero (last_amount hs (serviceName c)))"
    unfolding a(1) set_costs_sorted
    by (auto simp: unsorted_costs_def service_cost_def Let_def g)
  have m: "mset (map serviceName (costs r)) = mset (allServices cur prev)"
    unfolding a(1) by (rule names_sorted)
  have 4: "distinct (map serviceName (costs r))"
    using mset_eq_imp_distinct_iff[OF m] distinct_allServices by simp
  have "set (map serviceName (costs r)) = set (allServices cur prev)"
    using m by (metis set_mset_mset)
  then have 5: "set (map serviceName (costs r)) = group_key ` set gs \<union> group_key ` set hs"
    using process_groups_keys[OF p(1)] process_groups_keys[OF p(2)]
    by (simp add: set_allServices map_keys_def)
  from 1 2 3 4 5 show ?thesis by (simp add: group_key_keyless)
qed

lemma response_groups_response_of: "response_groups (response_of gs) = Inr gs"
  by (simp add: response_groups_def response_of_def)

lemma group_amount_keyless: "group_amount (keyless_group a) = Inr a"
  by (simp add: group_amount_def keyless_group_def)

lemma group_key_keyless_group: "group_key (keyless_group a) = ''Unknown''"
  by (simp add: group_key_def keyless_group_def)

lemma aggregate_keyless:
  "\<exists>r. aggregate
      (response_of [keyless_group (Fin 2), group_of ''Amazon EC2'' (Fin 7), keyless_group (Fin 3)])
      (response_of []) 9 10 = Inr r
    \<and> total_cost r = Fin 12
    \<and> map serviceName (costs r) = [''Amazon EC2'', ''Unknown'']
    \<and> map amount (costs r) = [Fin 7, Fin 3]"
  by (simp add: aggregate_def window_costs_response_of group_amount_group_of group_key_group_of
      group_amount_keyless group_key_keyless_group
      unsorted_costs_def allServices_def new_Set_def set_add_def map_keys_def service_cost_def
      opt_or_zero_def or_zero_def array_sort_def by_amount_desc_def jssub_def
      zero_jsnum_def plus_jsnum_def Let_def)

theorem C9_unknown_and_last_write_witness:
  "\<exists>r. aggregate
      (response_of [keyless_group (Fin 2), group_of ''Amazon EC2'' (Fin 7), keyless_group (Fin 3)])
      (response_of []) 9 10 = Inr r
    \<and> total_cost r = Fin 12
    \<and> map serviceName (costs r) = [''Amazon EC2'', ''Unknown'']
    \<and> map amount (costs r) = [Fin 7, Fin 3]
    \<and> distinct (map serviceName (costs r))
    \<and> group_amounts [keyless_group (Fin 2), group_of ''Amazon EC2'' (Fin 7), keyless_group (Fin 3)]
        = Inr [Fin 2, Fin 7, Fin 3]"
proof -
  from aggregate_keyless obtain r where
    r: "aggregate
      (response_of [keyless_group (Fin 2), group_of ''Amazon EC2'' (Fin 7), keyless_group (Fin 3)])
      (response_of []) 9 10 = Inr r
      \<and> total_cost r = Fin 12
      \<and> map serviceName (costs r) = [''Amazon EC2'', ''Unknown'']
      \<and> map amount (costs r) = [Fin 7, Fin 3]"
    by (rule exE)
  have d: "distinct (map serviceName (costs r))"
    using C9_unknown_and_last_write[OF response_groups_response_of response_groups_response_of
        r[THEN conjunct1]]
    by simp
  have g: "group_amounts [keyless_group (Fin 2), group_of ''Amazon EC2'' (Fin 7), keyless_group (Fin 3)]
        = Inr [Fin 2, Fin 7, Fin 3]"
    by (simp add: group_amounts_def group_amount_keyless group_amount_group_of)
  from r d g show ?thesis by (intro exI[of _ r]) simp
qed



section \<open>Sums\<close>







lemma traverse_length: "traverse f xs = Inr ys \<Longrightarrow> length ys = length xs"
  by (induction xs arbitrary: ys) (auto split: sum.splits)


section \<open>Categories\<close>




lemma set_category_changes_keeps:
  "current (set_category_changes cats k) = current (cats k)"
  "previous (set_category_changes cats k) = previous (cats k)"
  by (simp_all add: set_category_changes_def)

section \<open>The cross-check of the totals\<close>









section \<open>The issue body\<close>

lemma traverse_map:
  assumes "traverse f xs = Inr ys" "\<And>x y. f x = Inr y \<Longrightarrow> g y = h x"
  shows "map g ys = map h xs"
  using assms(1)
proof (induction xs arbitrary: ys)
  case Nil
  then show ?case by simp
next
  case (Cons x xs)
  then obtain y ys' where "f x = Inr y" "traverse f xs = Inr ys'" "ys = y # ys'"
    by (auto split: sum.splits)
  with Cons.IH[of ys'] assms(2) show ?case by simp
qed

lemma notable_line_service: "notable_line c = Inr e \<Longrightarrow> ne_service e = serviceName c"
  by (auto simp: notable_line_def split: sum.splits)

lemma notable_filter_iff:
  "notable_filter c \<longleftrightarrow>
     (\<exists>p. changePercentage c = Some p \<and> js_gt (jsabs p) (Fin 10) \<and> js_gt (amount c) (Fin 0.01))"
  by (cases "changePercentage c") (simp_all add: notable_filter_def to_number_def)

lemma notable_filter_finite:
  "changePercentage c = Some (Fin p) \<Longrightarrow> amount c = Fin a \<Longrightarrow>
     notable_filter c \<longleftrightarrow> 10 < \<bar>p\<bar> \<and> 0.01 < a"
  by (simp add: notable_filter_def to_number_def)

lemma issueBody_notable:
  assumes "issueBody today r = Inr b"
  shows "traverse notable_line (filter notable_filter (costs r)) = Inr (ib_notable b)"
  using assms by (auto simp: issueBody_def split: sum.splits)

text \<open>
  C6: the lines of the notable-changes section are, in the order of the services, those of
  the services whose change exceeds \<open>10\<close> in absolute value and whose current amount exceeds
  \<open>0.01\<close>; for finite numbers these are the two strict inequalities of the claim.
\<close>

theorem C6_notable_changes:
  assumes "issueBody today r = Inr b"
  shows "map ne_service (ib_notable b)
           = map serviceName
               (filter (\<lambda>c. \<exists>p. changePercentage c = Some p \<and> js_gt (jsabs p) (Fin 10) \<and>
                              js_gt (amount c) (Fin 0.01)) (costs r))
       \<and> (\<forall>c p a. changePercentage c = Some (Fin p) \<and> amount c = Fin a \<longrightarrow>
             (notable_filter c \<longleftrightarrow> 10 < \<bar>p\<bar> \<and> 0.01 < a))"
proof -
  have "map ne_service (ib_notable b) = map serviceName (filter notable_filter (costs r))"
    using issueBody_notable[OF assms] notable_line_service by (rule traverse_map)
  also have "filter notable_filter (costs r)
      = filter (\<lambda>c. \<exists>p. changePercentage c = Some p \<and> js_gt (jsabs p) (Fin 10) \<and>
                              js_gt (amount c) (Fin 0.01)) (costs r)"
    by (rule filter_cong[OF refl]) (rule notable_filter_iff)
  finally show ?thesis by (simp add: notable_filter_finite)
qed

lemma issueBody_noisy:
  "\<exists>b. issueBody 10 noisy_result = Inr b"
  by (simp add: issueBody_def noisy_result_def tiny_service_def sizeable_service_def
      detail_filter_def detail_line_def notable_filter_def notable_line_def format_change_of_def
      to_number_def)

theorem C6_notable_changes_witness:
  "\<exists>b. issueBody 10 noisy_result = Inr b
     \<and> map serviceName (costs noisy_result) = [''Amazon EC2'', ''AWS Lambda'']
     \<and> map amount (costs noisy_result) = [Fin 5.00, Fin 0.001]
     \<and> map changePercentage (costs noisy_result) = [Some (Fin 15), Some (Fin 500)]
     \<and> map ne_service (ib_notable b) = [''Amazon EC2'']"
proof -
  from issueBody_noisy obtain b where b: "issueBody 10 noisy_result = Inr b"
    by (rule exE)
  have "map ne_service (ib_notable b) = [''Amazon EC2'']"
    using C6_notable_changes[OF b]
    by (simp add: noisy_result_def tiny_service_def sizeable_service_def)
  with b show ?thesis
    by (intro exI[of _ b]) (simp add: noisy_result_def tiny_service_def sizeable_service_def)
qed



section \<open>The share of the total\<close>

lemma share_zero_total: "share_of_total d (Fin 0) = zero_total_share (current d)"
  by (cases "current d") (simp_all add: share_of_total_def inf_of_sign_def)

lemma mset_array_sort_acc:
  "mset (foldl (\<lambda>acc x. sort_insert cmp x acc) acc xs) = mset acc + mset xs"
  by (induction xs arbitrary: acc) (simp_all add: mset_sort_insert)

lemma mset_array_sort: "mset (array_sort cmp xs) = mset xs"
  by (simp add: array_sort_def mset_array_sort_acc)

lemma summary_percentages:
  "map (json_field ''percentage'') (summary_categories r)
     = map (\<lambda>k. Some (JFixed (ToFixed 1 (share_of_total (categories r k) (total_cost r)))))
         category_order"
  by (simp add: summary_categories_def Let_def comp_def)

lemma section_percentages:
  "mset (map (\<lambda>e. (ce_heading e, ce_percentage e)) (category_section r))
     = mset (map (\<lambda>k. (toUpperCase (category_name k),
                         ToFixed 1 (share_of_total (categories r k) (total_cost r))))
               category_order)"
proof -
  let ?line = "\<lambda>(cat, data). (toUpperCase (category_name cat),
                   ToFixed 1 (share_of_total data (total_cost r)))"
  have "map (\<lambda>e. (ce_heading e, ce_percentage e)) (category_section r)
          = map ?line (array_sort by_current_desc (map (\<lambda>k. (k, categories r k)) category_order))"
    by (simp add: category_section_def comp_def case_prod_unfold)
  also have "mset \<dots> = mset (map ?line (map (\<lambda>k. (k, categories r k)) category_order))"
    by (simp only: mset_map mset_array_sort)
  also have "map ?line (map (\<lambda>k. (k, categories r k)) category_order)
          = map (\<lambda>k. (toUpperCase (category_name k),
                         ToFixed 1 (share_of_total (categories r k) (total_cost r))))
               category_order"
    by (simp add: comp_def)
  finally show ?thesis .
qed

lemma non_negative_sum:
  "\<forall>a\<in>set as. non_negative a \<Longrightarrow> non_negative (sum_list as)"
proof (induction as)
  case Nil
  then show ?case by (simp add: zero_jsnum_def)
next
  case (Cons a as)
  then have "non_negative a" "non_negative (sum_list as)" by simp_all
  then show ?case
    by (cases a; cases "sum_list as") (simp_all add: plus_jsnum_def)
qed

lemma non_negative_sum_zero:
  "\<forall>a\<in>set as. non_negative a \<Longrightarrow> sum_list as = Fin 0 \<Longrightarrow> \<forall>a\<in>set as. a = Fin 0"
proof (induction as)
  case Nil
  then show ?case by simp
next
  case (Cons a as)
  have n: "non_negative a" "non_negative (sum_list as)"
    using Cons.prems(1) by (simp_all add: non_negative_sum)
  have "a + sum_list as = Fin 0" using Cons.prems(2) by simp
  with n have "a = Fin 0 \<and> sum_list as = Fin 0"
    by (cases a; cases "sum_list as") (auto simp: plus_jsnum_def)
  with Cons show ?case by simp
qed

lemma group_amounts_member:
  "group_amounts gs = Inr as \<Longrightarrow> g \<in> set gs \<Longrightarrow> \<exists>a\<in>set as. group_amount g = Inr a"
  unfolding group_amounts_def
  by (induction gs arbitrary: as) (auto split: sum.splits)

lemma last_amount_member:
  assumes "last_amount gs k = Some a"
  shows "\<exists>g\<in>set gs. group_amount g = Inr a"
proof -
  from assms obtain f fs where f: "filter (\<lambda>g. group_key g = k) gs = f # fs"
    and a: "group_amount (last (f # fs)) = Inr a"
    by (auto simp: last_amount_def split: list.splits sum.splits)
  have "last (f # fs) \<in> set (filter (\<lambda>g. group_key g = k) gs)"
    unfolding f by (rule last_in_set) simp
  then have "last (f # fs) \<in> set gs" by simp
  with a show ?thesis by blast
qed

lemma accumulate_zero_amounts:
  "\<forall>c\<in>set cs. amount c = Fin 0 \<Longrightarrow> current (accumulate cs cats k) = current (cats k)"
proof (induction cs arbitrary: cats)
  case Nil
  then show ?case by simp
next
  case (Cons c cs)
  then have z: "amount c = 0" by (simp add: zero_jsnum_def)
  show ?case using Cons by (simp add: Let_def z)
qed

lemma zero_total_categories:
  assumes "aggregate cr pr y n = Inr r" "response_groups cr = Inr gs"
    and "group_amounts gs = Inr as" "\<forall>a\<in>set as. non_negative a" "total_cost r = Fin 0"
  shows "current (categories r k) = Fin 0"
proof -
  from assms(1) obtain t1 cur t2 prev where
    w: "window_costs cr = Inr (t1, cur)" "window_costs pr = Inr (t2, prev)"
    by (rule aggregate_InrD)
  have p: "process_groups gs (Fin 0, []) = Inr (t1, cur)"
    using w(1) assms(2) by (simp add: window_costs_groups)
  note a = aggregate_costs[OF assms(1) w]
  have "sum_list as = Fin 0"
    using process_groups_total_zero[OF p] assms(3,5) a(2) by simp
  then have z: "\<forall>a\<in>set as. a = Fin 0"
    using assms(4) by (intro non_negative_sum_zero)
  have l: "opt_or_zero (last_amount gs name) = Fin 0" for name
  proof (cases "last_amount gs name")
    case None
    then show ?thesis by (simp add: opt_or_zero_def)
  next
    case (Some a)
    from last_amount_member[OF Some] obtain g where "g \<in> set gs" "group_amount g = Inr a" by blast
    with group_amounts_member[OF assms(3)] z have "a = Fin 0" by fastforce
    with Some show ?thesis by (simp add: opt_or_zero_def or_zero_def)
  qed
  have "\<forall>c\<in>set (costs r). amount c = Fin 0"
    unfolding a(1) set_costs_sorted
    by (auto simp: unsorted_costs_def service_cost_def Let_def process_groups_get_empty[OF p] l)
  then have "current (accumulate (costs r) initial_categories k) = Fin 0"
    by (simp add: accumulate_zero_amounts initial_categories_def)
  then show ?thesis by (simp add: a(4) set_category_changes_keeps)
qed

lemma classify_refund: "classify ''Refund'' = Other"
  by code_simp

text \<open>
  C10, as stated, fails: on a day on which a refund of 5 cancels a cost of 5 the grand total
  is \<open>0\<close>, and the share of the category of the cost is \<^verbatim>\<open>Infinity\<close>, not \<^verbatim>\<open>NaN\<close>.
\<close>

theorem C10_cancelling_amounts:
  "\<not> isl cancelling_result
   \<and> total_cost (projr cancelling_result) = Fin 0
   \<and> current (categories (projr cancelling_result) Ec2) = Fin 5
   \<and> share_of_total (categories (projr cancelling_result) Ec2) (total_cost (projr cancelling_result))
       = PInf
   \<and> json_field ''percentage'' (hd (summary_categories (projr cancelling_result)))
       = Some (JFixed (ToFixed 1 PInf))"
  by (simp add: cancelling_result_def cancelling_day_def aggregate_def window_costs_response_of
      group_amount_group_of group_key_group_of
      unsorted_costs_def allServices_def new_Set_def set_add_def map_keys_def service_cost_def
      opt_or_zero_def or_zero_def array_sort_def by_amount_desc_def jssub_def change_percentage_def
      classify_examples classify_refund set_category_changes_def initial_categories_def
      share_of_total_def inf_of_sign_def summary_categories_def category_order_def
      zero_jsnum_def plus_jsnum_def Let_def)

text \<open>
  C10, amended: when the grand total is \<open>0\<close>, the share of a category in both renderers is
  \<^verbatim>\<open>NaN\<close> if the current sum of the category is \<open>0\<close>, and \<^verbatim>\<open>Infinity\<close> or \<^verbatim>\<open>-Infinity\<close> if
  it is positive or negative; when no fetched amount is negative every current sum is \<open>0\<close>
  and every share is \<^verbatim>\<open>NaN\<close>.
\<close>

theorem C10_share_of_zero_total:
  assumes "total_cost r = Fin 0"
  shows "(\<forall>k. share_of_total (categories r k) (total_cost r)
              = zero_total_share (current (categories r k)))
       \<and> map (json_field ''percentage'') (summary_categories r)
           = map (\<lambda>k. Some (JFixed (ToFixed 1 (zero_total_share (current (categories r k))))))
               category_order
       \<and> mset (map (\<lambda>e. (ce_heading e, ce_percentage e)) (category_section r))
           = mset (map (\<lambda>k. (toUpperCase (category_name k),
                               ToFixed 1 (zero_total_share (current (categories r k)))))
                     category_order)
       \<and> (\<forall>cr pr y n gs as.
             aggregate cr pr y n = Inr r \<and> response_groups cr = Inr gs \<and>
             group_amounts gs = Inr as \<and> (\<forall>a\<in>set as. non_negative a) \<longrightarrow>
             (\<forall>k. current (categories r k) = Fin 0 \<and>
                  share_of_total (categories r k) (total_cost r) = NaN))"
proof -
  have s: "share_of_total (categories r k) (total_cost r)
             = zero_total_share (current (categories r k))" for k
    unfolding assms by (rule share_zero_total)
  have z: "current (categories r k) = Fin 0 \<and> share_of_total (categories r k) (total_cost r) = NaN"
    if "aggregate cr pr y n = Inr r" "response_groups cr = Inr gs"
      "group_amounts gs = Inr as" "\<forall>a\<in>set as. non_negative a"
    for cr pr y n gs as k
    using zero_total_categories[OF that assms, of k] by (simp add: s)
  have 1: "\<forall>k. share_of_total (categories r k) (total_cost r)
              = zero_total_share (current (categories r k))"
    using s by simp
  have 2: "map (json_field ''percentage'') (summary_categories r)
           = map (\<lambda>k. Some (JFixed (ToFixed 1 (zero_total_share (current (categories r k))))))
               category_order"
    unfolding summary_percentages by (simp add: s)
  have 3: "mset (map (\<lambda>e. (ce_heading e, ce_percentage e)) (category_section r))
           = mset (map (\<lambda>k. (toUpperCase (category_name k),
                               ToFixed 1 (zero_total_share (current (categories r k)))))
                     category_order)"
    unfolding section_percentages by (simp add: s)
  have 4: "\<forall>cr pr y n gs as.
             aggregate cr pr y n = Inr r \<and> response_groups cr = Inr gs \<and>
             group_amounts gs = Inr as \<and> (\<forall>a\<in>set as. non_negative a) \<longrightarrow>
             (\<forall>k. current (categories r k) = Fin 0 \<and>
                  share_of_total (categories r k) (total_cost r) = NaN)"
    using z by blast
  from 1 2 3 4 show ?thesis by (intro conjI)
qed

lemma aggregate_zero_service_total:
  "\<exists>r. aggregate (response_of [group_of ''Amazon EC2'' (Fin 0)])
             (response_of [group_of ''Amazon EC2'' (Fin 0)]) 9 10 = Inr r
       \<and> total_cost r = Fin 0"
  by (simp add: aggregate_zero_service)

theorem C10_share_of_zero_total_witness:
  "\<exists>r. aggregate (response_of [group_of ''Amazon EC2'' (Fin 0)])
             (response_of [group_of ''Amazon EC2'' (Fin 0)]) 9 10 = Inr r
       \<and> total_cost r = Fin 0
       \<and> share_of_total (categories r Ec2) (total_cost r) = NaN
       \<and> map (json_field ''percentage'') (summary_categories r)
           = replicate 6 (Some (JFixed (ToFixed 1 NaN)))"
proof -
  from aggregate_zero_service_total obtain r where
    r: "aggregate (response_of [group_of ''Amazon EC2'' (Fin 0)])
             (response_of [group_of ''Amazon EC2'' (Fin 0)]) 9 10 = Inr r \<and> total_cost r = Fin 0"
    by (rule exE)
  note a = r[THEN conjunct1] and t = r[THEN conjunct2]
  note c = C10_share_of_zero_total[OF t]
  have g: "group_amounts [group_of ''Amazon EC2'' (Fin 0)] = Inr [Fin 0]"
    by (simp add: group_amounts_def group_amount_group_of)
  have n: "\<forall>a\<in>set [Fin 0]. non_negative a" by simp
  from c have "aggregate (response_of [group_of ''Amazon EC2'' (Fin 0)])
             (response_of [group_of ''Amazon EC2'' (Fin 0)]) 9 10 = Inr r \<and>
          response_groups (response_of [group_of ''Amazon EC2'' (Fin 0)])
             = Inr [group_of ''Amazon EC2'' (Fin 0)] \<and>
          group_amounts [group_of ''Amazon EC2'' (Fin 0)] = Inr [Fin 0] \<and>
          (\<forall>a\<in>set [Fin 0]. non_negative a) \<longrightarrow>
          (\<forall>k. current (categories r k) = Fin 0 \<and>
               share_of_total (categories r k) (total_cost r) = NaN)"
    by blast
  with a g n have z: "\<forall>k. current (categories r k) = Fin 0 \<and>
               share_of_total (categories r k) (total_cost r) = NaN"
    by (simp add: response_groups_response_of)
  from c have "map (json_field ''percentage'') (summary_categories r)
           = map (\<lambda>k. Some (JFixed (ToFixed 1 (zero_total_share (current (categories r k))))))
               category_order"
    by blast
  then have j: "map (json_field ''percentage'') (summary_categories r)
           = replicate 6 (Some (JFixed (ToFixed 1 NaN)))"
    using z by (simp add: category_order_def numeral_eq_Suc)
  from a t z j show ?thesis by (intro exI[of _ r]) simp
qed

end
